theory Spec2Isabelle
  imports Main "HOL-Library.Log_Nat"
begin

section \<open>Unit registry of specklepy: \<open>specklepy/objects/units.py\<close>\<close>

text \<open>
  The module holds one enumeration, three constant dictionaries and six functions over
  them. Dictionaries are association lists in insertion order, since two of the functions
  iterate over \<open>items()\<close>; exceptions are values of a sum type (\<open>Inl\<close> the exception).
\<close>

subsection \<open>Values\<close>

text \<open>The enumeration \<open>class Units(Enum)\<close>, members in declaration order.\<close>

datatype Units =
    Units_mm
  | Units_cm
  | Units_m
  | Units_km
  | Units_inches
  | Units_feet
  | Units_yards
  | Units_miles
  | Units_none
  | Units_sqm
  | Units_cbm
  | Units_percent
  | Units_watts
  | Units_watts_per_sqm
  | Units_liters_per_sec_sqm

text \<open>
  The Python values the functions are called with: \<open>None\<close>, a \<open>str\<close>, an \<open>int\<close> or a
  member of \<open>Units\<close>. Values of different constructors are never equal in Python either
  (\<open>Units\<close> is a plain \<open>Enum\<close>, so a member is not equal to its string value).

  A \<open>str\<close> is a sequence of code points; the model has the code points U+0000 to U+00FF,
  one \<open>char\<close> each. Every character of the alias table lies in that range
  (\<open>\<twosuperior>\<close> is U+00B2, \<open>\<threesuperior>\<close> is U+00B3, the middle dot is U+00B7).
\<close>

datatype pyval =
    PyNone
  | PyStr string
  | PyInt int
  | PyUnits Units

text \<open>
  The exceptions of the module. \<open>SpeckleException\<close> is raised with two different
  messages, one constructor each; every exception carries the offending value.
\<close>

datatype error =
    SpeckleInvalidUnitException pyval
  | SpeckleException_could_not_understand int
  | SpeckleException_no_encoding_exists pyval
  | ValueError_invalid_units pyval
  | ZeroDivisionError

subsection \<open>\<open>str.lower\<close>\<close>

text \<open>
  On the code points below U+0100, \<open>str.lower\<close> maps character by character: the
  upper-case letters are A to Z (65 to 90) and U+00C0 to U+00DE without the
  multiplication sign U+00D7, and the lower-case letter of each is 32 further.
\<close>

definition is_upper :: "char \<Rightarrow> bool" where
  "is_upper c =
     (let n = (of_char c :: nat)
      in (65 \<le> n \<and> n \<le> 90) \<or> (192 \<le> n \<and> n \<le> 222 \<and> n \<noteq> 215))"

definition lower_char :: "char \<Rightarrow> char" where
  "lower_char c = (if is_upper c then char_of (of_char c + (32::nat)) else c)"

definition str_lower :: "string \<Rightarrow> string" where
  "str_lower s = map lower_char s"

subsection \<open>The tables\<close>

definition sup2 :: char where "sup2 = CHR 0xB2"
definition sup3 :: char where "sup3 = CHR 0xB3"
definition middle_dot :: char where "middle_dot = CHR 0xB7"

definition UNITS_STRINGS :: "(Units \<times> string list) list" where
  "UNITS_STRINGS =
   [ (Units_mm, [''mm'', ''mil'', ''millimeters'', ''millimetres'']),
     (Units_cm, [''cm'', ''centimetre'', ''centimeter'', ''centimetres'', ''centimeters'']),
     (Units_m, [''m'', ''meter'', ''meters'', ''metre'', ''metres'']),
     (Units_km, [''km'', ''kilometer'', ''kilometre'', ''kilometers'', ''kilometres'']),
     (Units_inches, [''in'', ''inch'', ''inches'']),
     (Units_feet, [''ft'', ''foot'', ''feet'']),
     (Units_yards, [''yd'', ''yard'', ''yards'']),
     (Units_miles, [''mi'', ''mile'', ''miles'']),
     (Units_none, [''none'', ''null'']),
     (Units_sqm, [''sqm'', ''m'' @ [sup2], ''square meter'', ''square meters'']),
     (Units_cbm, [''cbm'', ''m'' @ [sup3], ''cubic meter'', ''cubic meters'']),
     (Units_percent, [''percent'', ''%'']),
     (Units_watts, [''W'', ''watt'', ''watts'']),
     (Units_watts_per_sqm, [''W/m'' @ [sup2], ''watts per square meter'']),
     (Units_liters_per_sec_sqm,
        [''L/(s'' @ [middle_dot] @ ''m'' @ [sup2] @ '')'',
         ''liters per second per square meter'']) ]"

text \<open>The keys of \<open>UNITS_ENCODINGS\<close> are members of \<open>Units\<close> and \<open>None\<close>.\<close>

definition UNITS_ENCODINGS :: "(pyval \<times> int) list" where
  "UNITS_ENCODINGS =
   [ (PyUnits Units_none, 0),
     (PyNone, 0),
     (PyUnits Units_mm, 1),
     (PyUnits Units_cm, 2),
     (PyUnits Units_m, 3),
     (PyUnits Units_km, 4),
     (PyUnits Units_inches, 5),
     (PyUnits Units_feet, 6),
     (PyUnits Units_yards, 7),
     (PyUnits Units_miles, 8),
     (PyUnits Units_sqm, 9),
     (PyUnits Units_cbm, 10),
     (PyUnits Units_percent, 11),
     (PyUnits Units_watts, 12),
     (PyUnits Units_watts_per_sqm, 13),
     (PyUnits Units_liters_per_sec_sqm, 14) ]"

subsection \<open>\<open>get_units_from_string\<close>\<close>

text \<open>
  The loop \<open>for name, alternates in UNITS_STRINGS.items()\<close> that returns at the first
  list holding the string; \<open>None\<close> when it runs to its end.
\<close>

fun first_unit_with :: "(Units \<times> string list) list \<Rightarrow> string \<Rightarrow> Units option" where
  "first_unit_with [] unit = None"
| "first_unit_with ((name, alternates) # rest) unit =
     (if unit \<in> set alternates then Some name else first_unit_with rest unit)"

definition get_units_from_string :: "pyval \<Rightarrow> error + Units" where
  "get_units_from_string unit =
     (case unit of
        PyStr s \<Rightarrow>
          (let unit' = str_lower s
           in case first_unit_with UNITS_STRINGS unit' of
                Some name \<Rightarrow> Inr name
              | None \<Rightarrow> Inl (SpeckleInvalidUnitException (PyStr unit')))
      | _ \<Rightarrow> Inl (SpeckleInvalidUnitException unit))"

subsection \<open>\<open>get_units_from_encoding\<close>\<close>

text \<open>
  \<open>name or Units.none\<close>: a member of \<open>Units\<close> is truthy, \<open>None\<close> is falsy. The other
  cases follow Python's truth value and never arise for a key of \<open>UNITS_ENCODINGS\<close>.
\<close>

fun or_Units_none :: "pyval \<Rightarrow> pyval" where
  "or_Units_none PyNone = PyUnits Units_none"
| "or_Units_none (PyStr s) = (if s = [] then PyUnits Units_none else PyStr s)"
| "or_Units_none (PyInt i) = (if i = 0 then PyUnits Units_none else PyInt i)"
| "or_Units_none (PyUnits u) = PyUnits u"

fun first_name_with :: "(pyval \<times> int) list \<Rightarrow> int \<Rightarrow> pyval option" where
  "first_name_with [] unit = None"
| "first_name_with ((name, encoding) # rest) unit =
     (if unit = encoding then Some name else first_name_with rest unit)"

definition get_units_from_encoding :: "int \<Rightarrow> error + pyval" where
  "get_units_from_encoding unit =
     (case first_name_with UNITS_ENCODINGS unit of
        Some name \<Rightarrow> Inr (or_Units_none name)
      | None \<Rightarrow> Inl (SpeckleException_could_not_understand unit))"

subsection \<open>\<open>get_encoding_from_units\<close>\<close>

text \<open>
  The loop over \<open>UNITS_STRINGS.items()\<close> has no \<open>break\<close>: every list holding the string
  overwrites \<open>maybe_sanitized_unit\<close>, and the string is compared as given.
\<close>

fun sanitize :: "(Units \<times> string list) list \<Rightarrow> string \<Rightarrow> pyval \<Rightarrow> pyval" where
  "sanitize [] unit maybe_sanitized_unit = maybe_sanitized_unit"
| "sanitize ((unit_enum, aliases) # rest) unit maybe_sanitized_unit =
     sanitize rest unit
       (if unit \<in> set aliases then PyUnits unit_enum else maybe_sanitized_unit)"

definition get_encoding_from_units :: "pyval \<Rightarrow> error + int" where
  "get_encoding_from_units unit =
     (let maybe_sanitized_unit =
            (case unit of PyStr s \<Rightarrow> sanitize UNITS_STRINGS s unit | _ \<Rightarrow> unit)
      in case map_of UNITS_ENCODINGS maybe_sanitized_unit of
           Some encoding \<Rightarrow> Inr encoding
         | None \<Rightarrow> Inl (SpeckleException_no_encoding_exists maybe_sanitized_unit))"

subsection \<open>Python numbers and \<open>/\<close>\<close>

text \<open>
  A scale factor is an \<open>int\<close> (the \<open>1\<close> of \<open>Units.none\<close>) or a \<open>float\<close>. A finite
  \<open>float\<close> is an IEEE 754 binary64 number: \<open>m * 2 ^ e\<close> for integers \<open>m\<close> and \<open>e\<close>, with
  \<open>2 ^ 52 \<le> \<bar>m\<bar> < 2 ^ 53\<close> and \<open>- 1074 \<le> e\<close> for a normal number, and with
  \<open>\<bar>m\<bar> < 2 ^ 52\<close> and \<open>e = - 1074\<close> for a subnormal number and for zero. Every finite double
  has one such pair, so that \<open>==\<close> on two of them is equality of the pairs.
\<close>

datatype double = Double (mantissa: int) (exponent: int)

datatype pynum =
    Num_int int
  | Num_float double

definition pow2 :: "int \<Rightarrow> rat" where
  "pow2 e = (if 0 \<le> e then 2 ^ nat e else 1 / 2 ^ nat (- e))"

text \<open>The number a double stands for.\<close>

definition double_value :: "double \<Rightarrow> rat" where
  "double_value x = of_int (mantissa x) * pow2 (exponent x)"

text \<open>The integer nearest to \<open>p / q\<close> for \<open>0 < q\<close>, a tie going to the even one.\<close>

definition round_half_even :: "int \<Rightarrow> int \<Rightarrow> int" where
  "round_half_even p q =
     (let f = p div q; r = p - f * q
      in if 2 * r < q then f
         else if q < 2 * r then f + 1
         else if even f then f else f + 1)"

text \<open>Numerator and denominator of \<open>(p / q) / 2 ^ e\<close>.\<close>

definition scaled :: "int \<Rightarrow> int \<Rightarrow> int \<Rightarrow> int \<times> int" where
  "scaled p q e = (if 0 \<le> e then (p, q * 2 ^ nat e) else (p * 2 ^ nat (- e), q))"

text \<open>
  The exponent of the double nearest to \<open>p / q\<close>, for \<open>p \<noteq> 0\<close> and \<open>0 < q\<close>: the \<open>e\<close> with
  \<open>2 ^ 52 \<le> \<bar>p / q\<bar> / 2 ^ e < 2 ^ 53\<close>, and \<open>- 1074\<close> in the subnormal range. The bit
  lengths of \<open>p\<close> and \<open>q\<close> give it up to one.
\<close>

definition double_exponent :: "int \<Rightarrow> int \<Rightarrow> int" where
  "double_exponent p q =
     (let e = bitlen \<bar>p\<bar> - bitlen q - 53;
          (n, d) = scaled \<bar>p\<bar> q e;
          e' = (if 2 ^ 53 * d \<le> n then e + 1 else e)
      in max e' (- 1074))"

text \<open>
  Rounding \<open>p / q\<close> (\<open>0 < q\<close>) to the nearest double, ties to even: what the hardware does
  to the exact result of a division, and what Python does to a decimal literal and to an
  \<open>int\<close> it converts. Below \<open>2 ^ 1024\<close> in magnitude the result is a finite double; the
  numbers of this module lie between \<open>2 ^ - 21\<close> and \<open>2 ^ 21\<close>.
\<close>

definition round_ratio :: "int \<Rightarrow> int \<Rightarrow> double" where
  "round_ratio p q =
     (if p = 0 then Double 0 (- 1074)
      else let e = double_exponent p q;
               (n, d) = scaled p q e;
               m = round_half_even n d
           in if \<bar>m\<bar> = 2 ^ 53 then Double (m div 2) (e + 1) else Double m e)"

text \<open>A \<open>float\<close> literal whose decimal digits denote \<open>p / q\<close>.\<close>

definition float_literal :: "int \<Rightarrow> int \<Rightarrow> pynum" where
  "float_literal p q = Num_float (round_ratio p q)"

text \<open>
  The quotient of two doubles, the divisor not zero: the exact quotient
  \<open>(m1 / m2) * 2 ^ (e1 - e2)\<close> as a ratio of integers with a positive denominator, rounded.
\<close>

definition float_div :: "double \<Rightarrow> double \<Rightarrow> double" where
  "float_div x y =
     (let s = (if mantissa y < 0 then - 1 else 1);
          k = exponent x - exponent y
      in if 0 \<le> k then round_ratio (s * mantissa x * 2 ^ nat k) (s * mantissa y)
         else round_ratio (s * mantissa x) (s * mantissa y * 2 ^ nat (- k)))"

text \<open>
  \<open>a / b\<close> on numbers. Of two \<open>int\<close>s Python returns the correctly rounded quotient;
  otherwise it converts an \<open>int\<close> operand to \<open>float\<close> and divides the two doubles. A zero
  divisor raises \<open>ZeroDivisionError\<close>.
\<close>

fun to_float :: "pynum \<Rightarrow> double" where
  "to_float (Num_int i) = round_ratio i 1"
| "to_float (Num_float x) = x"

fun truediv :: "pynum \<Rightarrow> pynum \<Rightarrow> error + pynum" where
  "truediv (Num_int a) (Num_int b) =
     (if b = 0 then Inl ZeroDivisionError
      else Inr (Num_float (if b < 0 then round_ratio (- a) (- b) else round_ratio a b)))"
| "truediv a b =
     (if mantissa (to_float b) = 0 then Inl ZeroDivisionError
      else Inr (Num_float (float_div (to_float a) (to_float b))))"

definition UNIT_SCALE :: "(pyval \<times> pynum) list" where
  "UNIT_SCALE =
   [ (PyUnits Units_none, Num_int 1),
     (PyUnits Units_mm, float_literal 1 1000),
     (PyUnits Units_cm, float_literal 1 100),
     (PyUnits Units_m, float_literal 10 10),
     (PyUnits Units_km, float_literal 10000 10),
     (PyUnits Units_inches, float_literal 254 10000),
     (PyUnits Units_feet, float_literal 3048 10000),
     (PyUnits Units_yards, float_literal 9144 10000),
     (PyUnits Units_miles, float_literal 1609340 1000),
     (PyUnits Units_sqm, float_literal 10 10),
     (PyUnits Units_cbm, float_literal 10 10),
     (PyUnits Units_percent, float_literal 1 100),
     (PyUnits Units_watts, float_literal 10 10),
     (PyUnits Units_watts_per_sqm, float_literal 10 10),
     (PyUnits Units_liters_per_sec_sqm, float_literal 10 10) ]"

subsection \<open>The scale factors\<close>

definition get_scale_factor_to_meters :: "pyval \<Rightarrow> error + pynum" where
  "get_scale_factor_to_meters fromUnits =
     (case map_of UNIT_SCALE fromUnits of
        None \<Rightarrow> Inl (ValueError_invalid_units fromUnits)
      | Some scale \<Rightarrow> Inr scale)"

text \<open>The operands of \<open>/\<close> are evaluated left to right; an exception of either call
  leaves \<open>get_scale_factor\<close> as it is.\<close>

definition get_scale_factor :: "pyval \<Rightarrow> pyval \<Rightarrow> error + pynum" where
  "get_scale_factor fromUnits toUnits =
     (case get_scale_factor_to_meters fromUnits of
        Inl e \<Rightarrow> Inl e
      | Inr a \<Rightarrow>
          (case get_scale_factor_to_meters toUnits of
             Inl e \<Rightarrow> Inl e
           | Inr b \<Rightarrow> truediv a b))"

definition get_scale_factor_from_string :: "pyval \<Rightarrow> pyval \<Rightarrow> error + pynum" where
  "get_scale_factor_from_string fromUnits toUnits =
     (case get_units_from_string fromUnits of
        Inl e \<Rightarrow> Inl e
      | Inr f \<Rightarrow>
          (case get_units_from_string toUnits of
             Inl e \<Rightarrow> Inl e
           | Inr t \<Rightarrow> get_scale_factor (PyUnits f) (PyUnits t)))"

subsection \<open>Finite enumerations used by the proofs\<close>

text \<open>The members of \<open>Units\<close>, and the doubles that occur in \<open>UNIT_SCALE\<close>.\<close>

definition all_Units :: "Units list" where
  "all_Units =
     [Units_mm, Units_cm, Units_m, Units_km, Units_inches, Units_feet, Units_yards, Units_miles,
      Units_none, Units_sqm, Units_cbm, Units_percent, Units_watts, Units_watts_per_sqm,
      Units_liters_per_sec_sqm]"

definition one_double :: double where
  "one_double = Double 4503599627370496 (- 52)"

definition scale_doubles :: "double list" where
  "scale_doubles =
     [one_double,
      Double 4611686018427388 (- 62),
      Double 5764607523034235 (- 59),
      Double 8796093022208000 (- 43),
      Double 7321051554253478 (- 58),
      Double 5490788665690109 (- 54),
      Double 8236182998535163 (- 53),
      Double 7077952172180111 (- 42)]"

fun int_one_or_float :: "pynum \<Rightarrow> bool" where
  "int_one_or_float (Num_int i) = (i = 1)"
| "int_one_or_float (Num_float x) = True"

text \<open>
  \<open>\<bar>x * y - 1\<bar> \<le> 2 ^ - 52\<close> for two doubles, on their mantissas and exponents.
\<close>

definition product_near_one :: "double \<Rightarrow> double \<Rightarrow> bool" where
  "product_near_one x y =
     (let k = - (exponent x + exponent y)
      in 0 \<le> k \<and> \<bar>mantissa x * mantissa y - 2 ^ nat k\<bar> * 2 ^ 52 \<le> 2 ^ nat k)"

definition nearly_reciprocal :: "double \<Rightarrow> double \<Rightarrow> bool" where
  "nearly_reciprocal a b = product_near_one (float_div a b) (float_div b a)"

fun nearly_reciprocal_pairs :: "double list \<Rightarrow> bool" where
  "nearly_reciprocal_pairs [] = True"
| "nearly_reciprocal_pairs (a # xs) =
     (list_all (nearly_reciprocal a) (a # xs) \<and> nearly_reciprocal_pairs xs)"

definition division_fixed :: "double \<Rightarrow> bool" where
  "division_fixed v =
     (mantissa v \<noteq> 0
      \<and> float_div v one_double = v
      \<and> float_div v v = one_double
      \<and> mantissa (float_div one_double v) \<noteq> 0
      \<and> float_div one_double (float_div one_double v) = v)"

section \<open>Properties\<close>

subsection \<open>The alias table\<close>

lemma aliases_disjoint_gen:
  "distinct (concat (map snd t)) \<Longrightarrow> (U, as) \<in> set t \<Longrightarrow> (V, bs) \<in> set t \<Longrightarrow> U \<noteq> V
   \<Longrightarrow> set as \<inter> set bs = {}"
proof (induction t)
  case Nil
  then show ?case by simp
next
  case (Cons x t)
  from Cons.prems(1) have d: "distinct (concat (map snd t))"
    and i: "set (snd x) \<inter> (\<Union>p\<in>set t. set (snd p)) = {}" by auto
  show ?case
  proof (cases "(U, as) \<in> set t")
    case inU: True
    show ?thesis
    proof (cases "(V, bs) \<in> set t")
      case True
      with inU d Cons.IH Cons.prems(4) show ?thesis by blast
    next
      case False
      with Cons.prems(3) have "x = (V, bs)" by simp
      with i inU show ?thesis by fastforce
    qed
  next
    case notU: False
    with Cons.prems(2) have xU: "x = (U, as)" by simp
    with Cons.prems(3,4) have "(V, bs) \<in> set t" by auto
    with i xU show ?thesis by fastforce
  qed
qed

lemma first_unit_with_None:
  "s \<notin> (\<Union>p\<in>set t. set (snd p)) \<Longrightarrow> first_unit_with t s = None"
  by (induction t) auto

lemma first_unit_with_sound:
  "first_unit_with t s = Some U \<Longrightarrow> \<exists>as. (U, as) \<in> set t \<and> s \<in> set as"
  by (induction t) (auto split: if_splits)

lemma first_unit_with_complete:
  "distinct (concat (map snd t)) \<Longrightarrow> (U, as) \<in> set t \<Longrightarrow> s \<in> set as
   \<Longrightarrow> first_unit_with t s = Some U"
proof (induction t)
  case Nil
  then show ?case by simp
next
  case (Cons x t)
  obtain V bs where x: "x = (V, bs)" by (cases x)
  from Cons.prems(1) x have d: "distinct (concat (map snd t))"
    and i: "set bs \<inter> (\<Union>p\<in>set t. set (snd p)) = {}" by auto
  show ?case
  proof (cases "s \<in> set bs")
    case True
    have "(U, as) \<notin> set t"
    proof
      assume "(U, as) \<in> set t"
      with Cons.prems(3) have "s \<in> (\<Union>p\<in>set t. set (snd p))" by force
      with True i show False by blast
    qed
    with Cons.prems(2) x have "V = U" by simp
    with True x show ?thesis by simp
  next
    case False
    with Cons.prems(2,3) x have "(U, as) \<in> set t" by auto
    with False x d Cons.IH Cons.prems(3) show ?thesis by simp
  qed
qed

lemma sanitize_first:
  "distinct (concat (map snd t)) \<Longrightarrow>
   sanitize t s d = (case first_unit_with t s of Some U \<Rightarrow> PyUnits U | None \<Rightarrow> d)"
proof (induction t arbitrary: d)
  case Nil
  then show ?case by simp
next
  case (Cons x t)
  obtain V bs where x: "x = (V, bs)" by (cases x)
  from Cons.prems x have d: "distinct (concat (map snd t))"
    and i: "set bs \<inter> (\<Union>p\<in>set t. set (snd p)) = {}" by auto
  show ?case
  proof (cases "s \<in> set bs")
    case True
    with i have "s \<notin> (\<Union>p\<in>set t. set (snd p))" by blast
    then have "first_unit_with t s = None" by (rule first_unit_with_None)
    with True x Cons.IH [OF d] show ?thesis by simp
  next
    case False
    with x Cons.IH [OF d] show ?thesis by simp
  qed
qed

lemma UNITS_STRINGS_distinct: "distinct (concat (map snd UNITS_STRINGS))"
  by code_simp

text \<open>
  C10. No alias is listed under two different units; so the unit
  \<open>get_units_from_string\<close> finds first is the unit of the only list holding the string, and
  the loop of \<open>get_encoding_from_units\<close>, which keeps the last match, finds the same unit.
\<close>

theorem alias_lists_disjoint:
  "((U, as) \<in> set UNITS_STRINGS \<and> (V, bs) \<in> set UNITS_STRINGS \<and> U \<noteq> V
      \<longrightarrow> set as \<inter> set bs = {})
   \<and> (first_unit_with UNITS_STRINGS s = Some U
        \<longleftrightarrow> (\<exists>as. (U, as) \<in> set UNITS_STRINGS \<and> s \<in> set as))
   \<and> sanitize UNITS_STRINGS s d =
       (case first_unit_with UNITS_STRINGS s of Some U \<Rightarrow> PyUnits U | None \<Rightarrow> d)"
  using aliases_disjoint_gen [OF UNITS_STRINGS_distinct]
    first_unit_with_sound first_unit_with_complete [OF UNITS_STRINGS_distinct]
    sanitize_first [OF UNITS_STRINGS_distinct]
  by blast

theorem alias_lists_disjoint_witness:
  "(Units_mm, [''mm'', ''mil'', ''millimeters'', ''millimetres'']) \<in> set UNITS_STRINGS
   \<and> (Units_inches, [''in'', ''inch'', ''inches'']) \<in> set UNITS_STRINGS
   \<and> Units_mm \<noteq> Units_inches
   \<and> set [''mm'', ''mil'', ''millimeters'', ''millimetres'']
       \<inter> set [''in'', ''inch'', ''inches''] = {}"
  using alias_lists_disjoint [of Units_mm "[''mm'', ''mil'', ''millimeters'', ''millimetres'']"
      Units_inches "[''in'', ''inch'', ''inches'']"]
  by (simp add: UNITS_STRINGS_def)

subsection \<open>Strings to units, and the aliases that hold a capital letter\<close>

text \<open>
  C1, at the alias \<open>W\<close> of \<open>Units.watts\<close>: the string is lowered before it is looked up,
  the alias is stored with its capital, and \<open>get_units_from_string\<close> raises.
\<close>

theorem alias_W_is_rejected:
  "(Units_watts, [''W'', ''watt'', ''watts'']) \<in> set UNITS_STRINGS
   \<and> get_units_from_string (PyStr ''W'') = Inl (SpeckleInvalidUnitException (PyStr ''w''))"
  by code_simp

text \<open>
  C7, at the alias \<open>W/m\<twosuperior>\<close> of \<open>Units.watts_per_sqm\<close>: the input is a string and it is
  an alias of a unit as it stands, and \<open>get_units_from_string\<close> raises.
\<close>

theorem alias_W_per_sqm_raises:
  "first_unit_with UNITS_STRINGS (''W/m'' @ [sup2]) = Some Units_watts_per_sqm
   \<and> get_units_from_string (PyStr (''W/m'' @ [sup2]))
       = Inl (SpeckleInvalidUnitException (PyStr (''w/m'' @ [sup2])))"
  by code_simp

text \<open>
  C4, at \<open>MM\<close>: \<open>get_units_from_string\<close> resolves it to \<open>Units.mm\<close>, whose encoding is 1,
  and \<open>get_encoding_from_units\<close>, which compares the string as given, raises.
\<close>

theorem encoding_of_MM_missing:
  "get_units_from_string (PyStr ''MM'') = Inr Units_mm
   \<and> get_encoding_from_units (PyStr ''mm'') = Inr 1
   \<and> get_encoding_from_units (PyStr ''MM'')
       = Inl (SpeckleException_no_encoding_exists (PyStr ''MM''))"
  by code_simp

subsection \<open>Encodings\<close>

lemma first_name_with_None:
  "n \<notin> snd ` set t \<Longrightarrow> first_name_with t n = None"
  by (induction t) auto

text \<open>
  C2. Every member of \<open>Units\<close> has an encoding, and decoding it gives the member back.
\<close>

theorem decode_encode:
  "\<exists>n. get_encoding_from_units (PyUnits U) = Inr n
       \<and> get_units_from_encoding n = Inr (PyUnits U)"
  by (cases U)
     (simp_all add: get_encoding_from_units_def get_units_from_encoding_def UNITS_ENCODINGS_def)

text \<open>
  C3. An integer that is the encoding of a unit decodes to that unit; 0 decodes to
  \<open>Units.none\<close>, not to the key \<open>None\<close>; an integer that is no encoding, such as 999,
  raises the exception "could not understand what unit".
\<close>

theorem get_units_from_encoding_spec:
  "((PyUnits U, n) \<in> set UNITS_ENCODINGS \<longrightarrow> get_units_from_encoding n = Inr (PyUnits U))
   \<and> get_units_from_encoding 0 = Inr (PyUnits Units_none)
   \<and> ((\<forall>k. (k, n) \<notin> set UNITS_ENCODINGS)
        \<longrightarrow> get_units_from_encoding n = Inl (SpeckleException_could_not_understand n))
   \<and> get_units_from_encoding 999 = Inl (SpeckleException_could_not_understand 999)"
proof (intro conjI impI)
  assume "(PyUnits U, n) \<in> set UNITS_ENCODINGS"
  then show "get_units_from_encoding n = Inr (PyUnits U)"
    by (auto simp add: UNITS_ENCODINGS_def get_units_from_encoding_def)
next
  show "get_units_from_encoding 0 = Inr (PyUnits Units_none)"
    by (simp add: UNITS_ENCODINGS_def get_units_from_encoding_def)
next
  assume "\<forall>k. (k, n) \<notin> set UNITS_ENCODINGS"
  then have "n \<notin> snd ` set UNITS_ENCODINGS" by force
  then have "first_name_with UNITS_ENCODINGS n = None"
    by (rule first_name_with_None)
  then show "get_units_from_encoding n = Inl (SpeckleException_could_not_understand n)"
    by (simp add: get_units_from_encoding_def)
next
  show "get_units_from_encoding 999 = Inl (SpeckleException_could_not_understand 999)"
    by (simp add: UNITS_ENCODINGS_def get_units_from_encoding_def)
qed

theorem get_units_from_encoding_spec_witness:
  "(PyUnits Units_m, 3) \<in> set UNITS_ENCODINGS
   \<and> get_units_from_encoding 3 = Inr (PyUnits Units_m)
   \<and> (\<forall>k. (k, - 1) \<notin> set UNITS_ENCODINGS)
   \<and> get_units_from_encoding (- 1) = Inl (SpeckleException_could_not_understand (- 1))"
  using get_units_from_encoding_spec [of Units_m 3]
    get_units_from_encoding_spec [of Units_m "- 1"]
  by (simp add: UNITS_ENCODINGS_def)

subsection \<open>Scale factors\<close>

lemma all_Units_complete: "U \<in> set all_Units"
  by (cases U) (simp_all add: all_Units_def)

lemma scale_value_all:
  "list_all (\<lambda>U. case get_scale_factor_to_meters (PyUnits U) of
                    Inl e \<Rightarrow> False
                  | Inr a \<Rightarrow> int_one_or_float a \<and> to_float a \<in> set scale_doubles) all_Units"
  by code_simp

lemma scale_value:
  "\<exists>a. get_scale_factor_to_meters (PyUnits U) = Inr a
       \<and> int_one_or_float a \<and> to_float a \<in> set scale_doubles"
proof -
  from scale_value_all all_Units_complete [of U]
  have "case get_scale_factor_to_meters (PyUnits U) of
          Inl e \<Rightarrow> False
        | Inr a \<Rightarrow> int_one_or_float a \<and> to_float a \<in> set scale_doubles"
    by (simp add: list_all_iff)
  then show ?thesis by (cases "get_scale_factor_to_meters (PyUnits U)") simp_all
qed

lemma one_double_eval: "round_ratio 1 1 = one_double"
  by code_simp

lemma float_literal_one: "float_literal 10 10 = Num_float one_double"
  by code_simp

lemma division_fixed_all: "list_all division_fixed scale_doubles"
  by code_simp

lemma division_fixedD: "v \<in> set scale_doubles \<Longrightarrow> division_fixed v"
  using division_fixed_all by (simp add: list_all_iff)

lemma one_double_in: "one_double \<in> set scale_doubles"
  by (simp add: scale_doubles_def)

lemma truediv_scale:
  assumes "int_one_or_float a" and "int_one_or_float b" and "to_float b \<in> set scale_doubles"
  shows "truediv a b = Inr (Num_float (float_div (to_float a) (to_float b)))"
proof -
  from assms(3) have nz: "mantissa (to_float b) \<noteq> 0"
    by (auto dest: division_fixedD simp add: division_fixed_def)
  show ?thesis
  proof (cases a)
    case ai: (Num_int i)
    show ?thesis
    proof (cases b)
      case (Num_int j)
      with ai assms(1,2) have "i = 1" "j = 1" by simp_all
      moreover have "float_div one_double one_double = one_double"
        using division_fixedD [OF one_double_in] by (simp add: division_fixed_def)
      ultimately show ?thesis using ai Num_int by (simp add: one_double_eval)
    next
      case (Num_float y)
      with ai nz show ?thesis by simp
    qed
  next
    case (Num_float x)
    with nz show ?thesis by (cases b) simp_all
  qed
qed

lemma pow2_add: "pow2 a * pow2 b = pow2 (a + b)"
proof -
  have "pow2 e = 2 powi e" for e
    by (simp add: pow2_def power_int_def power_one_over inverse_eq_divide)
  then show ?thesis by (simp add: power_int_add)
qed

lemma product_near_oneD:
  assumes "product_near_one x y"
  shows "\<bar>double_value x * double_value y - 1\<bar> \<le> 1 / 2 ^ 52"
proof -
  define m where "m = mantissa x * mantissa y"
  define K where "K = nat (- (exponent x + exponent y))"
  from assms have k: "exponent x + exponent y = - int K"
    and le: "\<bar>m - 2 ^ K\<bar> * 2 ^ 52 \<le> (2::int) ^ K"
    by (simp_all add: product_near_one_def Let_def m_def K_def)
  have "pow2 (exponent x) * pow2 (exponent y) = pow2 (- int K)"
    by (simp add: pow2_add k)
  also have "\<dots> = 1 / 2 ^ K" by (simp add: pow2_def)
  finally have p: "pow2 (exponent x) * pow2 (exponent y) = 1 / 2 ^ K" .
  have "double_value x * double_value y
          = of_int m * (pow2 (exponent x) * pow2 (exponent y))"
    by (simp add: double_value_def m_def)
  with p have v: "double_value x * double_value y - 1 = of_int (m - 2 ^ K) / 2 ^ K"
    by (simp add: field_simps)
  from le have "(of_int (\<bar>m - 2 ^ K\<bar> * 2 ^ 52) :: rat) \<le> of_int (2 ^ K)"
    by (simp only: of_int_le_iff)
  then have "\<bar>of_int (m - 2 ^ K) :: rat\<bar> * 2 ^ 52 \<le> 2 ^ K" by simp
  then have "\<bar>of_int (m - 2 ^ K) / 2 ^ K :: rat\<bar> \<le> 1 / 2 ^ 52"
    by (simp add: field_simps)
  with v show ?thesis by simp
qed

lemma nearly_reciprocal_sym: "nearly_reciprocal a b = nearly_reciprocal b a"
  by (simp add: nearly_reciprocal_def product_near_one_def mult.commute add.commute)

lemma nearly_reciprocal_pairsD:
  "nearly_reciprocal_pairs xs \<Longrightarrow> a \<in> set xs \<Longrightarrow> b \<in> set xs \<Longrightarrow> nearly_reciprocal a b"
proof (induction xs)
  case Nil
  then show ?case by simp
next
  case (Cons x xs)
  from Cons.prems(1) have hd: "\<And>c. c \<in> set (x # xs) \<Longrightarrow> nearly_reciprocal x c"
    and tl: "nearly_reciprocal_pairs xs"
    by (auto simp add: list_all_iff)
  show ?case
  proof (cases "a = x")
    case True
    with hd Cons.prems(3) show ?thesis by blast
  next
    case False
    with Cons.prems(2) have a: "a \<in> set xs" by simp
    show ?thesis
    proof (cases "b = x")
      case True
      with hd Cons.prems(2) have "nearly_reciprocal b a" by blast
      then show ?thesis by (simp add: nearly_reciprocal_sym)
    next
      case False
      with Cons.prems(3) have "b \<in> set xs" by simp
      with a tl Cons.IH show ?thesis by blast
    qed
  qed
qed

lemma nearly_reciprocal_all: "nearly_reciprocal_pairs scale_doubles"
  by code_simp

text \<open>
  C8. \<open>get_scale_factor_to_meters\<close> raises \<open>ValueError\<close> for an argument that is no key of
  \<open>UNIT_SCALE\<close>; every member of \<open>Units\<close> is a key with one entry, whose value the call
  returns.
\<close>

theorem get_scale_factor_to_meters_total:
  "(fromUnits \<notin> fst ` set UNIT_SCALE
      \<longrightarrow> get_scale_factor_to_meters fromUnits = Inl (ValueError_invalid_units fromUnits))
   \<and> (\<exists>scale. get_scale_factor_to_meters (PyUnits U) = Inr scale
        \<and> (\<forall>x. (PyUnits U, x) \<in> set UNIT_SCALE \<longleftrightarrow> x = scale))"
proof (intro conjI impI)
  assume "fromUnits \<notin> fst ` set UNIT_SCALE"
  then have "map_of UNIT_SCALE fromUnits = None" by (simp add: map_of_eq_None_iff)
  then show "get_scale_factor_to_meters fromUnits = Inl (ValueError_invalid_units fromUnits)"
    by (simp add: get_scale_factor_to_meters_def)
next
  show "\<exists>scale. get_scale_factor_to_meters (PyUnits U) = Inr scale
        \<and> (\<forall>x. (PyUnits U, x) \<in> set UNIT_SCALE \<longleftrightarrow> x = scale)"
    by (cases U) (auto simp add: get_scale_factor_to_meters_def UNIT_SCALE_def)
qed

theorem get_scale_factor_to_meters_total_witness:
  "PyNone \<notin> fst ` set UNIT_SCALE
   \<and> get_scale_factor_to_meters PyNone = Inl (ValueError_invalid_units PyNone)"
  using get_scale_factor_to_meters_total [of PyNone]
  by (simp add: UNIT_SCALE_def)

text \<open>
  C9. The values of the examples: \<open>"meters"\<close> is \<open>Units.m\<close>, the encoding of \<open>Units.m\<close> is 3,
  the factor from metres to millimetres is the double \<open>1000.0\<close> and the factor from feet to
  metres is the double \<open>0.3048\<close>.
\<close>

theorem registry_examples:
  "get_units_from_string (PyStr ''meters'') = Inr Units_m
   \<and> get_encoding_from_units (PyUnits Units_m) = Inr 3
   \<and> get_scale_factor (PyUnits Units_m) (PyUnits Units_mm) = Inr (float_literal 10000 10)
   \<and> get_scale_factor (PyUnits Units_feet) (PyUnits Units_m) = Inr (float_literal 3048 10000)"
  by code_simp

text \<open>
  C5. The factor from a unit to itself is the double \<open>1.0\<close>.
\<close>

theorem get_scale_factor_same:
  "get_scale_factor (PyUnits U) (PyUnits U) = Inr (float_literal 10 10)"
proof -
  from scale_value [of U] obtain a
    where a: "get_scale_factor_to_meters (PyUnits U) = Inr a"
      and ia: "int_one_or_float a" and sa: "to_float a \<in> set scale_doubles"
    by blast
  from division_fixedD [OF sa] have "float_div (to_float a) (to_float a) = one_double"
    by (simp add: division_fixed_def)
  with truediv_scale [OF ia ia sa] have "truediv a a = Inr (Num_float one_double)" by simp
  with a show ?thesis by (simp add: get_scale_factor_def float_literal_one)
qed

text \<open>
  C6 as the specification states it, at inches and feet: the factor from inches to feet
  and the reciprocal of the factor from feet to inches are two different doubles.
\<close>

theorem reciprocal_counterexample:
  "get_scale_factor (PyUnits Units_inches) (PyUnits Units_feet)
   \<noteq> (case get_scale_factor (PyUnits Units_feet) (PyUnits Units_inches) of
        Inl e \<Rightarrow> Inl e | Inr y \<Rightarrow> truediv (Num_int 1) y)"
  by code_simp

text \<open>
  C6, amended. The factor from \<open>A\<close> to \<open>B\<close> is the quotient of the two scale factors
  rounded to a double. It is the reciprocal of the factor from \<open>B\<close> to \<open>A\<close> up to
  rounding: the product of the two factors is within \<open>2 ^ - 52\<close> of 1; and \<open>1 /\<close> the factor
  from \<open>B\<close> to \<open>A\<close> is the factor from \<open>A\<close> to \<open>B\<close> itself when one of the two scale factors
  is 1 or the two are equal.
\<close>

theorem get_scale_factor_reciprocal_rounded:
  "\<exists>a b x y.
     get_scale_factor_to_meters (PyUnits A) = Inr a
   \<and> get_scale_factor_to_meters (PyUnits B) = Inr b
   \<and> get_scale_factor (PyUnits A) (PyUnits B) = Inr (Num_float x)
   \<and> x = float_div (to_float a) (to_float b)
   \<and> get_scale_factor (PyUnits B) (PyUnits A) = Inr (Num_float y)
   \<and> y = float_div (to_float b) (to_float a)
   \<and> \<bar>double_value x * double_value y - 1\<bar> \<le> 1 / 2 ^ 52
   \<and> (to_float a = to_float (Num_int 1) \<or> to_float b = to_float (Num_int 1)
        \<or> to_float a = to_float b
       \<longrightarrow> truediv (Num_int 1) (Num_float y) = Inr (Num_float x))"
proof -
  from scale_value [of A] obtain a
    where a: "get_scale_factor_to_meters (PyUnits A) = Inr a"
      and ia: "int_one_or_float a" and sa: "to_float a \<in> set scale_doubles"
    by blast
  from scale_value [of B] obtain b
    where b: "get_scale_factor_to_meters (PyUnits B) = Inr b"
      and ib: "int_one_or_float b" and sb: "to_float b \<in> set scale_doubles"
    by blast
  define u where "u = to_float a"
  define v where "v = to_float b"
  define x where "x = float_div u v"
  define y where "y = float_div v u"
  have fu: "division_fixed u" and fv: "division_fixed v"
    using sa sb by (simp_all add: u_def v_def division_fixedD)
  have f1: "division_fixed one_double" by (rule division_fixedD [OF one_double_in])
  have ab: "get_scale_factor (PyUnits A) (PyUnits B) = Inr (Num_float x)"
    using a b truediv_scale [OF ia ib sb] by (simp add: get_scale_factor_def x_def u_def v_def)
  have ba: "get_scale_factor (PyUnits B) (PyUnits A) = Inr (Num_float y)"
    using a b truediv_scale [OF ib ia sa] by (simp add: get_scale_factor_def y_def u_def v_def)
  have "nearly_reciprocal u v"
    using nearly_reciprocal_pairsD [OF nearly_reciprocal_all sa sb] by (simp add: u_def v_def)
  then have "product_near_one x y"
    by (simp add: nearly_reciprocal_def x_def y_def)
  then have near: "\<bar>double_value x * double_value y - 1\<bar> \<le> 1 / 2 ^ 52"
    by (rule product_near_oneD)
  have exact: "truediv (Num_int 1) (Num_float y) = Inr (Num_float x)"
    if c: "u = one_double \<or> v = one_double \<or> u = v"
  proof -
    have "mantissa y \<noteq> 0 \<and> float_div one_double y = x"
      using c fu fv f1 by (auto simp add: division_fixed_def x_def y_def)
    then show ?thesis by (simp add: one_double_eval)
  qed
  have "to_float a = to_float (Num_int 1) \<or> to_float b = to_float (Num_int 1)
          \<or> to_float a = to_float b
        \<longrightarrow> truediv (Num_int 1) (Num_float y) = Inr (Num_float x)"
    using exact by (simp add: u_def v_def one_double_eval)
  with a b ab ba near show ?thesis
    unfolding x_def y_def u_def v_def by blast
qed

theorem get_scale_factor_reciprocal_rounded_witness:
  "to_float (float_literal 10 10) = to_float (Num_int 1)
   \<and> (case get_scale_factor (PyUnits Units_mm) (PyUnits Units_m) of
        Inl e \<Rightarrow> Inl e | Inr y \<Rightarrow> truediv (Num_int 1) y)
     = get_scale_factor (PyUnits Units_m) (PyUnits Units_mm)"
proof -
  have m: "get_scale_factor_to_meters (PyUnits Units_m) = Inr (float_literal 10 10)"
    by (simp add: get_scale_factor_to_meters_def UNIT_SCALE_def)
  have one: "to_float (float_literal 10 10) = to_float (Num_int 1)"
    by (simp add: float_literal_one one_double_eval)
  from get_scale_factor_reciprocal_rounded [of Units_m Units_mm] obtain a b x y
    where a: "get_scale_factor_to_meters (PyUnits Units_m) = Inr a"
      and ab: "get_scale_factor (PyUnits Units_m) (PyUnits Units_mm) = Inr (Num_float x)"
      and ba: "get_scale_factor (PyUnits Units_mm) (PyUnits Units_m) = Inr (Num_float y)"
      and imp: "to_float a = to_float (Num_int 1) \<or> to_float b = to_float (Num_int 1)
                  \<or> to_float a = to_float b
                \<longrightarrow> truediv (Num_int 1) (Num_float y) = Inr (Num_float x)"
    by blast
  from a m have "a = float_literal 10 10" by simp
  with one imp have "truediv (Num_int 1) (Num_float y) = Inr (Num_float x)" by simp
  with ab ba one show ?thesis by simp
qed

subsection \<open>What the string functions do on every input\<close>

lemma get_units_from_string_not_str:
  "(\<forall>s. unit \<noteq> PyStr s) \<Longrightarrow> get_units_from_string unit = Inl (SpeckleInvalidUnitException unit)"
  by (cases unit) (simp_all add: get_units_from_string_def)

lemma get_units_from_string_Inr_iff:
  "get_units_from_string unit = Inr U
   \<longleftrightarrow> (\<exists>s as. unit = PyStr s \<and> (U, as) \<in> set UNITS_STRINGS \<and> str_lower s \<in> set as)"
proof (cases unit)
  case (PyStr s)
  have "get_units_from_string (PyStr s) = Inr U
        \<longleftrightarrow> first_unit_with UNITS_STRINGS (str_lower s) = Some U"
    by (simp add: get_units_from_string_def Let_def split: option.splits)
  also have "\<dots> \<longleftrightarrow> (\<exists>as. (U, as) \<in> set UNITS_STRINGS \<and> str_lower s \<in> set as)"
    using first_unit_with_sound first_unit_with_complete [OF UNITS_STRINGS_distinct]
    by blast
  finally show ?thesis using PyStr by simp
qed (simp_all add: get_units_from_string_def)

lemma get_units_from_string_Inl:
  "get_units_from_string unit = Inl e \<Longrightarrow> \<exists>v. e = SpeckleInvalidUnitException v"
  by (cases unit) (auto simp add: get_units_from_string_def Let_def split: option.splits)

lemma get_units_from_string_lower_alias:
  "(U, as) \<in> set UNITS_STRINGS \<Longrightarrow> a \<in> set as \<Longrightarrow> str_lower s = a
   \<Longrightarrow> get_units_from_string (PyStr s) = Inr U"
  by (auto simp add: get_units_from_string_Inr_iff)

lemma get_encoding_from_units_None: "get_encoding_from_units PyNone = Inr 0"
  by (simp add: get_encoding_from_units_def UNITS_ENCODINGS_def)

lemma get_encoding_from_units_alias:
  "(U, as) \<in> set UNITS_STRINGS \<Longrightarrow> s \<in> set as
   \<Longrightarrow> get_encoding_from_units (PyStr s) = get_encoding_from_units (PyUnits U)"
  using first_unit_with_complete [OF UNITS_STRINGS_distinct, of U as s]
  by (simp add: get_encoding_from_units_def sanitize_first [OF UNITS_STRINGS_distinct])

lemma get_encoding_from_units_no_alias:
  "s \<notin> (\<Union>p\<in>set UNITS_STRINGS. set (snd p))
   \<Longrightarrow> get_encoding_from_units (PyStr s)
       = Inl (SpeckleException_no_encoding_exists (PyStr s))"
  by (simp add: get_encoding_from_units_def sanitize_first [OF UNITS_STRINGS_distinct]
      first_unit_with_None UNITS_ENCODINGS_def)

lemma get_encoding_from_units_Inl_iff:
  "get_encoding_from_units unit = Inl e
   \<longleftrightarrow> (\<exists>v. e = SpeckleException_no_encoding_exists v
            \<and> map_of UNITS_ENCODINGS v = None
            \<and> v = (case unit of PyStr s \<Rightarrow> sanitize UNITS_STRINGS s unit | _ \<Rightarrow> unit))"
  by (auto simp add: get_encoding_from_units_def Let_def split: option.splits)

subsection \<open>The rounding\<close>

lemma round_half_even_nearest:
  assumes "0 < q"
  shows "\<bar>of_int (round_half_even p q) - (of_int p / of_int q :: rat)\<bar> \<le> 1 / 2"
proof -
  define f where "f = p div q"
  define r where "r = p - f * q"
  have r: "r = p mod q" by (simp add: r_def f_def minus_div_mult_eq_mod)
  with assms have r0: "0 \<le> r" and rq: "r < q" by simp_all
  have p: "(of_int p :: rat) / of_int q = of_int f + of_int r / of_int q"
    using assms by (simp add: r_def field_simps)
  have q0: "(0::rat) < of_int q" using assms by simp
  consider "2 * r < q" | "q < 2 * r" | "2 * r = q" by linarith
  then show ?thesis
  proof cases
    case 1
    then have "round_half_even p q = f" by (simp add: round_half_even_def Let_def f_def r_def)
    moreover from 1 have "(of_int (2 * r) :: rat) < of_int q" by (simp only: of_int_less_iff)
    then have "(of_int r :: rat) / of_int q < 1 / 2" using q0 by (simp add: field_simps)
    moreover have "(0::rat) \<le> of_int r / of_int q" using r0 q0 by simp
    ultimately show ?thesis using p by simp
  next
    case 2
    then have "round_half_even p q = f + 1"
      by (simp add: round_half_even_def Let_def f_def r_def)
    moreover from 2 have "(of_int q :: rat) < of_int (2 * r)" by (simp only: of_int_less_iff)
    then have "1 / 2 < (of_int r :: rat) / of_int q" using q0 by (simp add: field_simps)
    moreover from rq have "(of_int r :: rat) < of_int q" by (simp only: of_int_less_iff)
    then have "(of_int r :: rat) / of_int q < 1" using q0 by simp
    ultimately show ?thesis using p by simp
  next
    case 3
    then have "round_half_even p q = f \<or> round_half_even p q = f + 1"
      by (simp add: round_half_even_def Let_def f_def r_def)
    moreover from 3 have "(of_int (2 * r) :: rat) = of_int q" by (simp only: of_int_eq_iff)
    then have "(of_int r :: rat) / of_int q = 1 / 2" using q0 by (simp add: field_simps)
    ultimately show ?thesis using p by auto
  qed
qed

lemma literal_values:
  "double_value (round_ratio 1 1000) = 1152921504606847 / 1152921504606846976"
  "double_value (round_ratio 3048 10000) = 5490788665690109 / 18014398509481984"
  "double_value (round_ratio 1609340 1000) = 7077952172180111 / 4398046511104"
  by code_simp+

lemma pow2_pos: "0 < pow2 e"
  by (simp add: pow2_def)

lemma scaled_ratio:
  assumes "0 < q" and "scaled p q e = (n, d)"
  shows "0 < d \<and> (of_int n :: rat) / of_int d = of_int p / of_int q / pow2 e"
  using assms by (cases "0 \<le> e") (auto simp add: scaled_def pow2_def)

lemma round_ratio_nearest:
  assumes "0 < q" and "p \<noteq> 0"
  shows "\<bar>double_value (round_ratio p q) - of_int p / of_int q\<bar>
          \<le> pow2 (double_exponent p q) / 2"
proof -
  define e where "e = double_exponent p q"
  obtain n d where nd: "scaled p q e = (n, d)" by (cases "scaled p q e")
  define m where "m = round_half_even n d"
  from scaled_ratio [OF assms(1) nd]
  have d: "0 < d" and r: "(of_int n :: rat) / of_int d = of_int p / of_int q / pow2 e"
    by simp_all
  have v: "double_value (round_ratio p q) = of_int m * pow2 e"
  proof (cases "\<bar>m\<bar> = 2 ^ 53")
    case True
    then have "m = 2 ^ 53 \<or> m = - (2 ^ 53)" by linarith
    then have "2 * (m div 2) = m" by auto
    then have "(of_int (m div 2) :: rat) * 2 = of_int m"
      by (metis mult.commute of_int_mult of_int_numeral)
    moreover have "pow2 (e + 1) = pow2 e * 2"
      using pow2_add [of e 1] by (simp add: pow2_def)
    ultimately have "(of_int (m div 2) :: rat) * pow2 (e + 1) = of_int m * pow2 e"
      by (simp add: mult.assoc mult.left_commute mult.commute)
    with True assms(2) nd show ?thesis
      by (simp add: round_ratio_def double_value_def Let_def e_def [symmetric] m_def [symmetric])
  next
    case False
    with assms(2) nd show ?thesis
      by (simp add: round_ratio_def double_value_def Let_def e_def [symmetric] m_def [symmetric])
  qed
  from round_half_even_nearest [OF d, of n]
  have "\<bar>of_int m - of_int p / of_int q / pow2 e\<bar> \<le> 1 / 2"
    by (simp add: m_def r)
  then have "\<bar>of_int m - of_int p / of_int q / pow2 e\<bar> * pow2 e \<le> 1 / 2 * pow2 e"
    using pow2_pos [of e] by (simp only: mult_le_cancel_right_pos)
  moreover have "\<bar>of_int m - of_int p / of_int q / pow2 e\<bar> * pow2 e
                  = \<bar>of_int m * pow2 e - of_int p / of_int q\<bar>"
  proof -
    have "\<bar>of_int m - of_int p / of_int q / pow2 e\<bar> * pow2 e
            = \<bar>(of_int m - of_int p / of_int q / pow2 e) * pow2 e\<bar>"
      using pow2_pos [of e] by (simp add: abs_mult)
    also have "(of_int m - of_int p / of_int q / pow2 e) * pow2 e
                 = of_int m * pow2 e - of_int p / of_int q"
      using pow2_pos [of e] by (simp add: field_simps)
    finally show ?thesis .
  qed
  ultimately show ?thesis by (simp add: v e_def)
qed

text \<open>The two sides of C6 at inches and feet, one unit in the last place apart.\<close>

lemma reciprocal_values_inches_feet:
  "get_scale_factor (PyUnits Units_inches) (PyUnits Units_feet)
     = Inr (Num_float (Double 6004799503160661 (- 56)))
   \<and> get_scale_factor (PyUnits Units_feet) (PyUnits Units_inches)
     = Inr (Num_float (Double 6755399441055745 (- 49)))
   \<and> truediv (Num_int 1) (Num_float (Double 6755399441055745 (- 49)))
     = Inr (Num_float (Double 6004799503160660 (- 56)))"
  by code_simp

end
